theory Spec2Isabelle
  imports Main
begin

section \<open>The Url document (models/urlModel.js)\<close>

text \<open>
  One document of the \<open>Url\<close> collection. Dates are milliseconds since the epoch, as
  \<open>Date.getTime()\<close> gives them. \<open>timestamps: true\<close> adds \<open>updatedAt\<close>.
  A string is a list of code units; the model covers code units below 256.
\<close>

record url_doc =
  originalUrl :: string
  shortCode :: string
  validity :: int
  expiry :: int
  clicks :: int
  createdAt :: int
  updatedAt :: int
  lastAccessed :: "int option"
  isActive :: bool

text \<open>The collection in natural (insertion) order.\<close>

type_synonym store = "url_doc list"

text \<open>\<open>urlSchema.methods.isExpired\<close>: \<open>new Date() > this.expiry\<close>.\<close>

definition isExpired :: "int \<Rightarrow> url_doc \<Rightarrow> bool" where
  "isExpired now d = (now > expiry d)"

text \<open>\<open>urlSchema.methods.isValidForRedirect\<close>.\<close>

definition isValidForRedirect :: "int \<Rightarrow> url_doc \<Rightarrow> bool" where
  "isValidForRedirect now d = (isActive d \<and> \<not> isExpired now d)"

text \<open>
  \<open>urlSchema.methods.incrementClicks\<close>: the two assignments, then \<open>save()\<close>, which
  also stamps \<open>updatedAt\<close>.
\<close>

definition incrementClicks :: "int \<Rightarrow> url_doc \<Rightarrow> url_doc" where
  "incrementClicks now d = d\<lparr>clicks := clicks d + 1, lastAccessed := Some now, updatedAt := now\<rparr>"

text \<open>The virtual \<open>timeRemaining\<close>.\<close>

definition timeRemaining :: "int \<Rightarrow> url_doc \<Rightarrow> int" where
  "timeRemaining now d = (if isExpired now d then 0 else max 0 (expiry d - now))"

section \<open>Queries and the pre-find hook\<close>

text \<open>
  The filters the controller builds mention four paths at most: \<open>shortCode\<close>,
  \<open>originalUrl\<close>, \<open>isActive\<close> (an equality, or \<open>$ne\<close> from the hook) and
  \<open>expiry: {$gt: ...}\<close>. A path that the filter does not own is \<open>None\<close>.
\<close>

datatype bool_cond = Eq bool | Ne bool

record query =
  q_shortCode :: "string option"
  q_originalUrl :: "string option"
  q_isActive :: "bool_cond option"
  q_expiry_gt :: "int option"

definition empty_query :: query where
  "empty_query = \<lparr>q_shortCode = None, q_originalUrl = None, q_isActive = None, q_expiry_gt = None\<rparr>"

fun holds_cond :: "bool_cond \<Rightarrow> bool \<Rightarrow> bool" where
  "holds_cond (Eq b) v = (v = b)"
| "holds_cond (Ne b) v = (v \<noteq> b)"

definition matches :: "query \<Rightarrow> url_doc \<Rightarrow> bool" where
  "matches q d =
     ((case q_shortCode q of None \<Rightarrow> True | Some c \<Rightarrow> shortCode d = c) \<and>
      (case q_originalUrl q of None \<Rightarrow> True | Some u \<Rightarrow> originalUrl d = u) \<and>
      (case q_isActive q of None \<Rightarrow> True | Some c \<Rightarrow> holds_cond c (isActive d)) \<and>
      (case q_expiry_gt q of None \<Rightarrow> True | Some t \<Rightarrow> expiry d > t))"

text \<open>
  \<open>urlSchema.pre(/^find/, ...)\<close>: when the filter has no own property \<open>isActive\<close>,
  \<open>isActive: {$ne: false}\<close> is merged into it. The pattern selects the query
  operations whose name starts with \<open>find\<close>: \<open>find\<close>, \<open>findOne\<close>,
  \<open>findOneAndDelete\<close>, \<open>findOneAndUpdate\<close>. The name \<open>countDocuments\<close> does not
  start with \<open>find\<close>, so that operation runs its filter as given.
\<close>

definition pre_find :: "query \<Rightarrow> query" where
  "pre_find q = (if q_isActive q \<noteq> None then q else q\<lparr>q_isActive := Some (Ne False)\<rparr>)"

definition findOne :: "query \<Rightarrow> store \<Rightarrow> url_doc option" where
  "findOne q s = List.find (matches (pre_find q)) s"

definition find_docs :: "query \<Rightarrow> store \<Rightarrow> url_doc list" where
  "find_docs q s = filter (matches (pre_find q)) s"

definition countDocuments :: "query \<Rightarrow> store \<Rightarrow> nat" where
  "countDocuments q s = length (filter (matches q) s)"

text \<open>
  A document found by a query is written back, or deleted, at the place where it was
  found: the first match in natural order.
\<close>

fun update_first :: "('a \<Rightarrow> bool) \<Rightarrow> ('a \<Rightarrow> 'a) \<Rightarrow> 'a list \<Rightarrow> 'a list" where
  "update_first P f [] = []"
| "update_first P f (x # xs) = (if P x then f x # xs else x # update_first P f xs)"



text \<open>
  \<open>findOneAndUpdate(filter, {isActive}, {new: true})\<close>: the document after the update,
  if any, and the new collection. The update stamps \<open>updatedAt\<close>.
\<close>

definition set_isActive :: "bool \<Rightarrow> int \<Rightarrow> url_doc \<Rightarrow> url_doc" where
  "set_isActive b now d = d\<lparr>isActive := b, updatedAt := now\<rparr>"

definition findOneAndUpdate :: "query \<Rightarrow> (url_doc \<Rightarrow> url_doc) \<Rightarrow> store \<Rightarrow> url_doc option \<times> store" where
  "findOneAndUpdate q upd s =
     (case findOne q s of
        None \<Rightarrow> (None, s)
      | Some d \<Rightarrow> (Some (upd d), update_first (matches (pre_find q)) upd s))"

text \<open>\<open>urlSchema.statics.findByShortCode\<close>: \<open>findOne({shortCode, isActive: true})\<close>.\<close>

definition findByShortCode :: "string \<Rightarrow> store \<Rightarrow> url_doc option" where
  "findByShortCode code s =
     findOne (empty_query\<lparr>q_shortCode := Some code, q_isActive := Some (Eq True)\<rparr>) s"

section \<open>Helpers (utils/helpers)\<close>

text \<open>
  \<open>String.prototype.trim\<close> removes white space and line terminators at both ends;
  below 256 these are the code units 9 to 13, 32 and 160.
\<close>

definition js_space :: "char \<Rightarrow> bool" where
  "js_space c = ((of_char c :: nat) \<in> {9, 10, 11, 12, 13, 32, 160})"

definition trim :: "string \<Rightarrow> string" where
  "trim s = rev (dropWhile js_space (rev (dropWhile js_space s)))"

text \<open>Case folding of the regular expression flag \<open>i\<close> on the letters A to Z.\<close>

definition to_lower :: "char \<Rightarrow> char" where
  "to_lower c = (let n = (of_char c :: nat) in if 65 \<le> n \<and> n \<le> 90 then char_of (n + 32) else c)"

text \<open>The test \<open>/^https?:\/\//i\<close> of \<open>sanitizeUrl\<close>.\<close>

definition has_scheme :: "string \<Rightarrow> bool" where
  "has_scheme u = (map to_lower (take 7 u) = ''http://'' \<or> map to_lower (take 8 u) = ''https://'')"

text \<open>
  \<open>sanitizeUrl\<close>. The argument is a string here, so the source's guard
  \<open>!url || typeof url !== "string"\<close> is the test for the empty string.
\<close>

definition sanitizeUrl :: "string \<Rightarrow> string" where
  "sanitizeUrl url =
     (if url = [] then []
      else let t = trim url in if \<not> has_scheme t then ''http://'' @ t else t)"

text \<open>\<open>isValidShortCode\<close>: \<open>/^[a-zA-Z0-9_-]+$/\<close> and a length of 3 to 20.\<close>

definition code_char :: "char \<Rightarrow> bool" where
  "code_char c = (let n = (of_char c :: nat) in
     (97 \<le> n \<and> n \<le> 122) \<or> (65 \<le> n \<and> n \<le> 90) \<or> (48 \<le> n \<and> n \<le> 57) \<or> n = 95 \<or> n = 45)"

definition isValidShortCode :: "string \<Rightarrow> bool" where
  "isValidShortCode c = (c \<noteq> [] \<and> list_all code_char c \<and> length c \<ge> 3 \<and> length c \<le> 20)"

text \<open>
  The body of \<open>POST /shorten\<close> at its documented types: \<open>url\<close> a string, \<open>validity\<close>
  a whole number, \<open>shortcode\<close> a string, each of them possibly absent.
\<close>

record shorten_body =
  req_url :: "string option"
  req_validity :: "int option"
  req_shortcode :: "string option"

text \<open>
  \<open>validateShortenRequest\<close>. \<open>isValidUrl\<close> is the platform's \<open>URL\<close> parser followed by
  the protocol test; the parser is not part of the repository and is a parameter.
\<close>

definition validateShortenRequest :: "(string \<Rightarrow> bool) \<Rightarrow> shorten_body \<Rightarrow> string list" where
  "validateShortenRequest isValidUrl body =
     (case req_url body of
        None \<Rightarrow> [''URL is required'']
      | Some u \<Rightarrow> if u = [] then [''URL is required'']
                  else if \<not> isValidUrl (sanitizeUrl u) then [''Please provide a valid URL''] else [])
     @ (case req_validity body of
          None \<Rightarrow> []
        | Some v \<Rightarrow> if v < 1 \<or> v > 525600
                    then [''Validity must be between 1 and 525600 minutes''] else [])
     @ (case req_shortcode body of
          None \<Rightarrow> []
        | Some c \<Rightarrow> if \<not> isValidShortCode c
                    then [''Custom shortcode must be 3-20 characters long and contain only letters, numbers, hyphens, and underscores'']
                    else [])"

text \<open>
  \<open>calculateExpiryDate\<close>: the clock advanced by the given number of minutes.
  \<open>setMinutes\<close> works on local time, so this is its result where the local offset
  from UTC is the same at both ends of the interval; across a daylight-saving change
  the source's date differs by the change of the offset. The validity is a number here
  (see \<open>shorten_body\<close>).
\<close>

definition calculateExpiryDate :: "int \<Rightarrow> int \<Rightarrow> int" where
  "calculateExpiryDate now validityInMinutes = now + validityInMinutes * 60000"

section \<open>Creating a document\<close>

text \<open>
  \<open>new Url({originalUrl, shortCode, validity, expiry})\<close>: the schema trims
  \<open>shortCode\<close> and fills in the defaults.
\<close>

definition new_Url :: "int \<Rightarrow> string \<Rightarrow> string \<Rightarrow> int \<Rightarrow> int \<Rightarrow> url_doc" where
  "new_Url now u code v e =
     \<lparr>originalUrl = u, shortCode = trim code, validity = v, expiry = e, clicks = 0,
      createdAt = now, updatedAt = now, lastAccessed = None, isActive = True\<rparr>"

text \<open>
  The validator of \<open>originalUrl\<close>, \<open>/^https?:\/\/.+/\<close> (case sensitive; the dot
  matches no line terminator).
\<close>

definition any_char :: "string \<Rightarrow> bool" where
  "any_char r = (case r of [] \<Rightarrow> False | c # _ \<Rightarrow> (of_char c :: nat) \<notin> {10, 13})"

definition url_validator :: "string \<Rightarrow> bool" where
  "url_validator v =
     ((take 7 v = ''http://'' \<and> any_char (drop 7 v)) \<or>
      (take 8 v = ''https://'' \<and> any_char (drop 8 v)))"

text \<open>The schema's validators, run by \<open>save()\<close> before the insert.\<close>

definition validate_doc :: "url_doc \<Rightarrow> bool" where
  "validate_doc d =
     (originalUrl d \<noteq> [] \<and> url_validator (originalUrl d) \<and> length (originalUrl d) \<le> 2048 \<and>
      shortCode d \<noteq> [] \<and> 3 \<le> length (shortCode d) \<and> length (shortCode d) \<le> 20 \<and>
      1 \<le> validity d \<and> validity d \<le> 525600 \<and> 0 \<le> clicks d)"

datatype save_error = ValidationError | DuplicateKey

text \<open>
  \<open>newUrl.save()\<close>: validation, then the insert, which the unique index on
  \<open>shortCode\<close> refuses with error 11000 when any document holds the same code.
\<close>

definition save_new :: "url_doc \<Rightarrow> store \<Rightarrow> save_error + store" where
  "save_new d s =
     (if \<not> validate_doc d then Inl ValidationError
      else if shortCode d \<in> set (map shortCode s) then Inl DuplicateKey
      else Inr (s @ [d]))"

section \<open>Responses\<close>

record stats_view =
  st_shortCode :: string
  st_originalUrl :: string
  st_clicks :: int
  st_validity :: int
  st_expiry :: int
  st_isExpired :: bool
  st_isActive :: bool
  st_createdAt :: int
  st_lastAccessed :: "int option"
  st_timeRemaining :: int

text \<open>A number of the response that may fail to be finite (a division by zero).\<close>

datatype jsnum = Finite int | Infinity | NaN

record url_page =
  urls :: "url_doc list"
  currentPage :: int
  totalPages :: jsnum
  totalItems :: nat
  itemsPerPage :: int
  hasNextPage :: bool
  hasPrevPage :: bool

text \<open>
  One constructor for each \<open>res.status(...).json(...)\<close> and \<open>res.redirect\<close> of the
  controller. The absolute short link of the creation responses is the request's own
  scheme and host before the short code, and is left out.
\<close>

datatype response =
    Created string string int int
  | AlreadyShortened string int
  | ValidationFailed "string list"
  | CustomCodeActive
  | DuplicateCode
  | ModelValidationError
  | InternalError string
  | Redirect string
  | NotFound string
  | Expired string int
  | Inactive string
  | Stats stats_view
  | UrlList url_page
  | Deleted string string int int
  | StatusUpdated string string bool
  | NotBoolean

fun status :: "response \<Rightarrow> nat" where
  "status (Created _ _ _ _) = 201"
| "status (AlreadyShortened _ _) = 200"
| "status (ValidationFailed _) = 400"
| "status CustomCodeActive = 400"
| "status DuplicateCode = 409"
| "status ModelValidationError = 400"
| "status (InternalError _) = 500"
| "status (Redirect _) = 301"
| "status (NotFound _) = 404"
| "status (Expired _ _) = 410"
| "status (Inactive _) = 410"
| "status (Stats _) = 200"
| "status (UrlList _) = 200"
| "status (Deleted _ _ _ _) = 200"
| "status (StatusUpdated _ _ _) = 200"
| "status NotBoolean = 400"

section \<open>createShortUrl\<close>

definition maxAttempts :: nat where
  "maxAttempts = 10"

text \<open>
  The \<open>do ... while\<close> loop. \<open>gen i\<close> is what the call number \<open>i\<close> of
  \<open>generateShortCode\<close> returns in this request (the generator is random, so its
  outcomes are an input). The result is the final value of \<open>attempts\<close> and the code,
  or \<open>None\<close> when the loop throws.
\<close>

function generate_loop :: "(nat \<Rightarrow> string) \<Rightarrow> store \<Rightarrow> nat \<Rightarrow> nat \<times> string option" where
  "generate_loop gen s attempts =
     (if attempts + 1 \<ge> maxAttempts then (attempts + 1, None)
      else if findByShortCode (gen attempts) s \<noteq> None then generate_loop gen s (attempts + 1)
      else (attempts + 1, Some (gen attempts)))"
  by pat_completeness auto
termination
  by (relation "measure (\<lambda>(gen, s, attempts). maxAttempts - attempts)") auto

text \<open>The deduplication lookup and its test.\<close>

definition existingUrl :: "int \<Rightarrow> string \<Rightarrow> store \<Rightarrow> url_doc option" where
  "existingUrl now sanitizedUrl s =
     (case findOne (empty_query\<lparr>q_originalUrl := Some sanitizedUrl\<rparr>) s of
        None \<Rightarrow> None
      | Some e \<Rightarrow> if isValidForRedirect now e then Some e else None)"

text \<open>
  The choice of the short code: the custom code unless an active, unexpired document
  found by \<open>findByShortCode\<close> holds it, else the loop.
\<close>

definition choose_code :: "(nat \<Rightarrow> string) \<Rightarrow> int \<Rightarrow> string option \<Rightarrow> store \<Rightarrow> response + string" where
  "choose_code gen now shortcode s =
     (case shortcode of
        Some c \<Rightarrow>
          (case findByShortCode c s of
             None \<Rightarrow> Inr c
           | Some d \<Rightarrow> if isValidForRedirect now d then Inl CustomCodeActive else Inr c)
      | None \<Rightarrow>
          (case snd (generate_loop gen s 0) of
             None \<Rightarrow> Inl (InternalError ''Unable to generate unique short code. Please try again.'')
           | Some code \<Rightarrow> Inr code))"

text \<open>
  \<open>validity || process.env.DEFAULT_VALIDITY_MINUTES || 30\<close>, with the environment
  variable unset: an absent validity and the falsy 0 give 30.
\<close>

definition validityInMinutes :: "int option \<Rightarrow> int" where
  "validityInMinutes validity_opt = (case validity_opt of None \<Rightarrow> 30 | Some v \<Rightarrow> if v = 0 then 30 else v)"

text \<open>The test \<open>if (shortcode)\<close>: an absent and an empty string are falsy.\<close>

definition truthy :: "string option \<Rightarrow> string option" where
  "truthy shortcode = (case shortcode of None \<Rightarrow> None | Some c \<Rightarrow> if c = [] then None else Some c)"

text \<open>
  \<open>createShortUrl\<close>: validation, sanitization, deduplication, the choice of the code,
  the insert, and the \<open>catch\<close> block's answers to the two errors of \<open>save()\<close>.
\<close>

definition createShortUrl ::
  "(string \<Rightarrow> bool) \<Rightarrow> (nat \<Rightarrow> string) \<Rightarrow> int \<Rightarrow> shorten_body \<Rightarrow> store \<Rightarrow> response \<times> store" where
  "createShortUrl isValidUrl gen now body s =
     (let errors = validateShortenRequest isValidUrl body in
      if errors \<noteq> [] then (ValidationFailed errors, s)
      else
        let sanitizedUrl = sanitizeUrl (case req_url body of None \<Rightarrow> [] | Some u \<Rightarrow> u);
            minutes = validityInMinutes (req_validity body);
            expiryDate = calculateExpiryDate now minutes
        in case existingUrl now sanitizedUrl s of
             Some e \<Rightarrow> (AlreadyShortened (shortCode e) (expiry e), s)
           | None \<Rightarrow>
               (case choose_code gen now (truthy (req_shortcode body)) s of
                  Inl r \<Rightarrow> (r, s)
                | Inr code \<Rightarrow>
                    (case save_new (new_Url now sanitizedUrl code minutes expiryDate) s of
                       Inl DuplicateKey \<Rightarrow> (DuplicateCode, s)
                     | Inl ValidationError \<Rightarrow> (ModelValidationError, s)
                     | Inr s' \<Rightarrow> (Created code sanitizedUrl expiryDate minutes, s'))))"

section \<open>redirectToUrl, getUrlStats, deleteUrl, updateUrlStatus\<close>

definition redirectToUrl :: "int \<Rightarrow> string \<Rightarrow> store \<Rightarrow> response \<times> store" where
  "redirectToUrl now code s =
     (case findByShortCode code s of
        None \<Rightarrow> (NotFound code, s)
      | Some u \<Rightarrow>
          if isExpired now u then (Expired code (expiry u), s)
          else if \<not> isActive u then (Inactive code, s)
          else (Redirect (originalUrl u),
                update_first
                  (matches (pre_find (empty_query\<lparr>q_shortCode := Some code, q_isActive := Some (Eq True)\<rparr>)))
                  (incrementClicks now) s))"

definition stats_of :: "int \<Rightarrow> url_doc \<Rightarrow> stats_view" where
  "stats_of now u =
     \<lparr>st_shortCode = shortCode u, st_originalUrl = originalUrl u, st_clicks = clicks u,
      st_validity = validity u, st_expiry = expiry u, st_isExpired = isExpired now u,
      st_isActive = isActive u, st_createdAt = createdAt u, st_lastAccessed = lastAccessed u,
      st_timeRemaining = timeRemaining now u\<rparr>"

definition getUrlStats :: "int \<Rightarrow> string \<Rightarrow> store \<Rightarrow> response" where
  "getUrlStats now code s =
     (case findByShortCode code s of
        None \<Rightarrow> NotFound code
      | Some u \<Rightarrow> Stats (stats_of now u))"


text \<open>A value of the request body, by its \<open>typeof\<close>.\<close>

datatype json = JUndefined | JNull | JBool bool | JNum int | JStr string | JObject

definition updateUrlStatus :: "int \<Rightarrow> string \<Rightarrow> json \<Rightarrow> store \<Rightarrow> response \<times> store" where
  "updateUrlStatus now code v s =
     (case v of
        JBool b \<Rightarrow>
          (case findOneAndUpdate (empty_query\<lparr>q_shortCode := Some code\<rparr>) (set_isActive b now) s of
             (None, s') \<Rightarrow> (NotFound code, s')
           | (Some u, s') \<Rightarrow> (StatusUpdated (shortCode u) (originalUrl u) (isActive u), s'))
      | _ \<Rightarrow> (NotBoolean, s))"

section \<open>getAllUrls\<close>

text \<open>Strings compare by code units, dates and numbers by value, \<open>null\<close> first.\<close>

fun str_le :: "string \<Rightarrow> string \<Rightarrow> bool" where
  "str_le [] _ = True"
| "str_le (_ # _) [] = False"
| "str_le (a # as) (b # bs) = ((of_char a :: nat) < of_char b \<or> (a = b \<and> str_le as bs))"

definition field_le :: "string \<Rightarrow> url_doc \<Rightarrow> url_doc \<Rightarrow> bool" where
  "field_le sortBy a b =
     (if sortBy = ''createdAt'' then createdAt a \<le> createdAt b
      else if sortBy = ''updatedAt'' then updatedAt a \<le> updatedAt b
      else if sortBy = ''expiry'' then expiry a \<le> expiry b
      else if sortBy = ''clicks'' then clicks a \<le> clicks b
      else if sortBy = ''validity'' then validity a \<le> validity b
      else if sortBy = ''shortCode'' then str_le (shortCode a) (shortCode b)
      else if sortBy = ''originalUrl'' then str_le (originalUrl a) (originalUrl b)
      else if sortBy = ''isActive'' then isActive a \<le> isActive b
      else if sortBy = ''lastAccessed'' then
        (case lastAccessed a of
           None \<Rightarrow> True
         | Some x \<Rightarrow> (case lastAccessed b of None \<Rightarrow> False | Some y \<Rightarrow> x \<le> y))
      else True)"

fun insort_by :: "('a \<Rightarrow> 'a \<Rightarrow> bool) \<Rightarrow> 'a \<Rightarrow> 'a list \<Rightarrow> 'a list" where
  "insort_by le x [] = [x]"
| "insort_by le x (y # ys) = (if le x y then x # y # ys else y # insort_by le x ys)"

definition sort_by :: "('a \<Rightarrow> 'a \<Rightarrow> bool) \<Rightarrow> 'a list \<Rightarrow> 'a list" where
  "sort_by le xs = foldr (insort_by le) xs []"

text \<open>
  \<open>sort[sortBy] = sortOrder === "desc" ? -1 : 1\<close>. A path that no document has
  leaves the natural order.
\<close>

definition sort_docs :: "string \<Rightarrow> string \<Rightarrow> url_doc list \<Rightarrow> url_doc list" where
  "sort_docs sortBy sortOrder xs =
     (if sortOrder = ''desc'' then sort_by (\<lambda>a b. field_le sortBy b a) xs
      else sort_by (field_le sortBy) xs)"

text \<open>\<open>limit(n)\<close>: zero is no limit, a negative number limits by its absolute value.\<close>

definition limit_docs :: "int \<Rightarrow> 'a list \<Rightarrow> 'a list" where
  "limit_docs n xs = (if n = 0 then xs else take (nat \<bar>n\<bar>) xs)"

text \<open>\<open>Math.ceil(total / limit)\<close> and the comparison \<open>page < totalPages\<close>.\<close>

definition ceil_div :: "nat \<Rightarrow> int \<Rightarrow> jsnum" where
  "ceil_div n limit =
     (if limit = 0 then (if n = 0 then NaN else Infinity)
      else Finite (- ((- int n) div limit)))"

fun less_jsnum :: "int \<Rightarrow> jsnum \<Rightarrow> bool" where
  "less_jsnum p (Finite t) = (p < t)"
| "less_jsnum p Infinity = True"
| "less_jsnum p NaN = False"

text \<open>
  \<open>getAllUrls\<close>, with \<open>page\<close> and \<open>limit\<close> as whole numbers and \<open>includeExpired\<close> by
  its truthiness. The page comes from \<open>find\<close>, the total from \<open>countDocuments\<close>, both
  on the same filter object. The store refuses a negative \<open>skip\<close>, which the handler
  answers with status 500.
\<close>

definition getAllUrls :: "int \<Rightarrow> int \<Rightarrow> int \<Rightarrow> string \<Rightarrow> string \<Rightarrow> bool \<Rightarrow> store \<Rightarrow> response" where
  "getAllUrls now page limit sortBy sortOrder includeExpired s =
     (let query = (if \<not> includeExpired then empty_query\<lparr>q_expiry_gt := Some now\<rparr> else empty_query);
          skip = (page - 1) * limit
      in if skip < 0 then InternalError ''Internal server error''
         else
           let found = limit_docs limit (drop (nat skip) (sort_docs sortBy sortOrder (find_docs query s)));
               n_total = countDocuments query s;
               pages = ceil_div n_total limit
           in UrlList \<lparr>urls = found, currentPage = page, totalPages = pages, totalItems = n_total,
                        itemsPerPage = limit, hasNextPage = less_jsnum page pages,
                        hasPrevPage = (page > 1)\<rparr>)"

section \<open>Example documents\<close>

text \<open>
  A document created at time 0 with the default validity of 30 minutes, and the same
  document after a deactivation.
\<close>

definition doc_a :: url_doc where
  "doc_a = \<lparr>originalUrl = ''http://a.io/x'', shortCode = ''abcde'', validity = 30,
     expiry = 1800000, clicks = 0, createdAt = 0, updatedAt = 0, lastAccessed = None,
     isActive = True\<rparr>"

definition doc_off :: url_doc where
  "doc_off = doc_a\<lparr>isActive := False\<rparr>"

text \<open>
  Two later documents for the URL of \<open>doc_a\<close>, created after its expiry, and the
  request that creates them.
\<close>

definition doc_b :: url_doc where
  "doc_b = \<lparr>originalUrl = ''http://a.io/x'', shortCode = ''bbbbb'', validity = 30,
     expiry = 3800000, clicks = 0, createdAt = 2000000, updatedAt = 2000000,
     lastAccessed = None, isActive = True\<rparr>"

definition doc_c :: url_doc where
  "doc_c = \<lparr>originalUrl = ''http://a.io/x'', shortCode = ''ccccc'', validity = 30,
     expiry = 3800001, clicks = 0, createdAt = 2000001, updatedAt = 2000001,
     lastAccessed = None, isActive = True\<rparr>"

definition body_a :: shorten_body where
  "body_a = \<lparr>req_url = Some ''http://a.io/x'', req_validity = None, req_shortcode = None\<rparr>"



text \<open>Two requests for another URL, without and with a custom code.\<close>

definition body_b :: shorten_body where
  "body_b = \<lparr>req_url = Some ''http://b.io/y'', req_validity = None, req_shortcode = None\<rparr>"

definition body_custom :: shorten_body where
  "body_custom = \<lparr>req_url = Some ''http://b.io/y'', req_validity = None, req_shortcode = Some ''abcde''\<rparr>"



definition body_custom_upper :: shorten_body where
  "body_custom_upper = \<lparr>req_url = Some ''HTTP://b.io/y'', req_validity = None, req_shortcode = Some ''abcde''\<rparr>"

text \<open>
  The verdict of the platform's URL parser on the URLs of the examples, each of them an
  absolute http URL.
\<close>

definition parser_ok :: "string \<Rightarrow> bool" where
  "parser_ok u = (u = ''http://a.io/x'' \<or> u = ''http://b.io/y'' \<or> u = ''http://example.com/path'')"

text \<open>
  The parser's verdict on the two sanitized URLs with a scheme: it accepts both, the
  scheme of a URL being case-insensitive for it.
\<close>

definition parser_schemes :: "string \<Rightarrow> bool" where
  "parser_schemes u = (u = ''HTTP://b.io/y'' \<or> u = ''https://a.io/x'')"

section \<open>Facts about queries\<close>

lemma matches_byShortCode:
  "matches (pre_find (empty_query\<lparr>q_shortCode := Some c, q_isActive := Some (Eq True)\<rparr>)) d
     = (shortCode d = c \<and> isActive d)"
  by (simp add: matches_def pre_find_def empty_query_def)

lemma matches_shortCode_hook:
  "matches (pre_find (empty_query\<lparr>q_shortCode := Some c\<rparr>)) d = (shortCode d = c \<and> isActive d)"
  by (simp add: matches_def pre_find_def empty_query_def)

lemma matches_originalUrl_hook:
  "matches (pre_find (empty_query\<lparr>q_originalUrl := Some u\<rparr>)) d = (originalUrl d = u \<and> isActive d)"
  by (simp add: matches_def pre_find_def empty_query_def)

lemma find_unique:
  assumes "distinct (map f s)" and "d \<in> set s" and "P d" and "\<And>x. P x \<Longrightarrow> f x = f d"
  shows "List.find P s = Some d"
  using assms(1,2)
proof (induction s)
  case Nil
  then show ?case by simp
next
  case (Cons x xs)
  show ?case
  proof (cases "x = d")
    case True
    then show ?thesis using assms(3) by simp
  next
    case False
    then have "d \<in> set xs" using Cons.prems by simp
    then have "f d \<in> f ` set xs" by simp
    then have "f x \<noteq> f d" using Cons.prems by auto
    then have "\<not> P x" using assms(4) by auto
    then show ?thesis using Cons \<open>d \<in> set xs\<close> by simp
  qed
qed

lemma find_None_set: "(List.find P s = None) = (\<forall>x\<in>set s. \<not> P x)"
  by (induction s) auto

lemma findByShortCode_active:
  assumes "distinct (map shortCode s)" and "d \<in> set s" and "isActive d"
  shows "findByShortCode (shortCode d) s = Some d"
  unfolding findByShortCode_def findOne_def
  by (rule find_unique [where f = shortCode]) (use assms in \<open>simp_all add: matches_byShortCode\<close>)

lemma findByShortCode_inactive:
  assumes "distinct (map shortCode s)" and "d \<in> set s" and "\<not> isActive d"
  shows "findByShortCode (shortCode d) s = None"
proof -
  have "\<And>x. x \<in> set s \<Longrightarrow> shortCode x = shortCode d \<Longrightarrow> x = d"
    using assms(1,2) by (meson distinct_map inj_onD)
  then show ?thesis
    unfolding findByShortCode_def findOne_def find_None_set
    using assms(3) by (auto simp: matches_byShortCode)
qed

lemma findByShortCode_None_iff:
  "(findByShortCode c s = None) = (\<forall>x\<in>set s. \<not> (shortCode x = c \<and> isActive x))"
  by (simp add: findByShortCode_def findOne_def find_None_set matches_byShortCode)

lemma findByShortCode_SomeD:
  "findByShortCode c s = Some d \<Longrightarrow> d \<in> set s \<and> shortCode d = c \<and> isActive d"
  unfolding findByShortCode_def findOne_def
  by (auto simp: find_Some_iff matches_byShortCode)

lemma matches_byShortCode_fun:
  "matches (pre_find (empty_query\<lparr>q_shortCode := Some c, q_isActive := Some (Eq True)\<rparr>))
     = (\<lambda>d. shortCode d = c \<and> isActive d)"
  by (rule ext) (rule matches_byShortCode)

lemma matches_shortCode_hook_fun:
  "matches (pre_find (empty_query\<lparr>q_shortCode := Some c\<rparr>)) = (\<lambda>d. shortCode d = c \<and> isActive d)"
  by (rule ext) (rule matches_shortCode_hook)

lemma matches_originalUrl_hook_fun:
  "matches (pre_find (empty_query\<lparr>q_originalUrl := Some u\<rparr>)) = (\<lambda>d. originalUrl d = u \<and> isActive d)"
  by (rule ext) (rule matches_originalUrl_hook)


text \<open>
  When the keys are distinct and only documents with the key \<open>c\<close> can match, one
  update that falsifies the filter leaves no match behind.
\<close>

lemma update_first_hides:
  assumes "distinct (map f s)" and "\<And>x. \<not> P (g x)" and "\<And>x. f (g x) = f x" and "\<And>x. P x \<Longrightarrow> f x = c"
  shows "\<forall>x\<in>set (update_first P g s). \<not> P x"
  using assms(1)
proof (induction s)
  case Nil
  then show ?case by simp
next
  case (Cons x xs)
  show ?case
  proof (cases "P x")
    case True
    then have "f x = c" using assms(4) by simp
    moreover have "f x \<notin> f ` set xs" using Cons.prems by simp
    ultimately have "\<forall>y\<in>set xs. f y \<noteq> c" by blast
    then have "\<forall>y\<in>set xs. \<not> P y" using assms(4) by blast
    then show ?thesis using True assms(2) by simp
  next
    case False
    then show ?thesis using Cons by simp
  qed
qed

lemma update_first_same_keys:
  assumes "\<And>x. f (g x) = f x"
  shows "map f (update_first P g s) = map f s"
  by (induction s) (simp_all add: assms)

lemma updateUrlStatus_False_hides:
  assumes "distinct (map shortCode s)" and "updateUrlStatus t c (JBool False) s = (r, s1)"
  shows "findByShortCode c s1 = None"
proof (cases "findOne (empty_query\<lparr>q_shortCode := Some c\<rparr>) s")
  case None
  then have "s1 = s" using assms(2) by (simp add: updateUrlStatus_def findOneAndUpdate_def)
  moreover have "\<forall>x\<in>set s. \<not> (shortCode x = c \<and> isActive x)"
    using None by (simp add: findOne_def find_None_set matches_shortCode_hook)
  ultimately show ?thesis by (simp add: findByShortCode_None_iff)
next
  case (Some d)
  then have s1: "s1 = update_first (\<lambda>x. shortCode x = c \<and> isActive x) (set_isActive False t) s"
    using assms(2) by (auto simp: updateUrlStatus_def findOneAndUpdate_def matches_shortCode_hook_fun)
  have "\<forall>x\<in>set s1. \<not> (shortCode x = c \<and> isActive x)"
    unfolding s1
    by (rule update_first_hides [where f = shortCode and c = c])
       (use assms(1) in \<open>simp_all add: set_isActive_def\<close>)
  then show ?thesis by (simp add: findByShortCode_None_iff)
qed

section \<open>Deactivation, redirection and statistics\<close>

text \<open>
  Claim C1, as the code has it. In a collection with distinct short codes, after
  \<open>updateUrlStatus\<close> with \<open>isActive = false\<close> on the code of a stored document, the
  redirection answers not found and leaves the collection as it is, and the statistics
  answer not found as well: both look the document up with \<open>findByShortCode\<close>, which
  asks for \<open>isActive: true\<close>. For an active document the statistics return its fields
  and the derived ones, whether it has expired or not.
\<close>

theorem deactivated_hidden:
  assumes "distinct (map shortCode s)" and "d \<in> set s"
    and "updateUrlStatus t (shortCode d) (JBool False) s = (r, s1)"
  shows "redirectToUrl now (shortCode d) s1 = (NotFound (shortCode d), s1) \<and>
         getUrlStats now (shortCode d) s1 = NotFound (shortCode d) \<and>
         (isActive d \<longrightarrow> getUrlStats now (shortCode d) s = Stats (stats_of now d))"
proof -
  have "findByShortCode (shortCode d) s1 = None"
    using assms(1,3) by (rule updateUrlStatus_False_hides)
  moreover have "isActive d \<Longrightarrow> findByShortCode (shortCode d) s = Some d"
    using assms(1,2) by (rule findByShortCode_active)
  ultimately show ?thesis by (simp add: redirectToUrl_def getUrlStats_def)
qed

text \<open>
  The theorem at the collection that holds \<open>doc_a\<close> alone, with the fields of its
  statistics written out.
\<close>

theorem deactivated_hidden_witness:
  "distinct (map shortCode [doc_a]) \<and> doc_a \<in> set [doc_a] \<and>
   updateUrlStatus 5 (shortCode doc_a) (JBool False) [doc_a]
     = (StatusUpdated ''abcde'' ''http://a.io/x'' False, [doc_off\<lparr>updatedAt := 5\<rparr>]) \<and>
   redirectToUrl 7 (shortCode doc_a) [doc_off\<lparr>updatedAt := 5\<rparr>]
     = (NotFound ''abcde'', [doc_off\<lparr>updatedAt := 5\<rparr>]) \<and>
   getUrlStats 7 (shortCode doc_a) [doc_off\<lparr>updatedAt := 5\<rparr>] = NotFound ''abcde'' \<and>
   isActive doc_a \<and>
   getUrlStats 7 (shortCode doc_a) [doc_a] = Stats (stats_of 7 doc_a) \<and>
   getUrlStats 7 ''abcde'' [doc_a]
     = Stats \<lparr>st_shortCode = ''abcde'', st_originalUrl = ''http://a.io/x'', st_clicks = 0,
               st_validity = 30, st_expiry = 1800000, st_isExpired = False, st_isActive = True,
               st_createdAt = 0, st_lastAccessed = None, st_timeRemaining = 1799993\<rparr>"
proof -
  have a: "distinct (map shortCode [doc_a])" by simp
  have b: "doc_a \<in> set [doc_a]" by simp
  have c: "updateUrlStatus 5 (shortCode doc_a) (JBool False) [doc_a]
     = (StatusUpdated ''abcde'' ''http://a.io/x'' False, [doc_off\<lparr>updatedAt := 5\<rparr>])"
    by code_simp
  have e: "isActive doc_a" by (simp add: doc_a_def)
  have f: "shortCode doc_a = ''abcde''" by (simp add: doc_a_def)
  have g: "stats_of 7 doc_a
     = \<lparr>st_shortCode = ''abcde'', st_originalUrl = ''http://a.io/x'', st_clicks = 0,
               st_validity = 30, st_expiry = 1800000, st_isExpired = False, st_isActive = True,
               st_createdAt = 0, st_lastAccessed = None, st_timeRemaining = 1799993\<rparr>"
    by (simp add: stats_of_def doc_a_def isExpired_def timeRemaining_def)
  show ?thesis
    using deactivated_hidden [OF a b c, of 7] a b c e f g by simp
qed

text \<open>
  The claim as stated fails: after the deactivation of \<open>doc_a\<close> the statistics of its
  code are not found.
\<close>

theorem stats_inactive_counterexample:
  "doc_a \<in> set [doc_a] \<and>
   updateUrlStatus 5 (shortCode doc_a) (JBool False) [doc_a]
     = (StatusUpdated ''abcde'' ''http://a.io/x'' False, [doc_off\<lparr>updatedAt := 5\<rparr>]) \<and>
   getUrlStats 7 (shortCode doc_a) [doc_off\<lparr>updatedAt := 5\<rparr>] = NotFound ''abcde''"
  by code_simp

section \<open>Deletion\<close>




section \<open>Redirection of an expired document\<close>

text \<open>
  Claim C8, as the code has it. In a collection with distinct short codes, the
  redirection on the code of a stored, expired document answers with the expired error
  (status 410) when the document is active, and with not found (status 404) when it
  is inactive; in both cases the collection is unchanged, so \<open>clicks\<close> is not
  incremented. The two errors differ.
\<close>

theorem redirect_expired:
  assumes "distinct (map shortCode s)" and "d \<in> set s" and "now > expiry d"
  shows "redirectToUrl now (shortCode d) s
           = (if isActive d then Expired (shortCode d) (expiry d) else NotFound (shortCode d), s) \<and>
         Expired (shortCode d) (expiry d) \<noteq> NotFound (shortCode d) \<and>
         status (Expired (shortCode d) (expiry d)) = 410 \<and> status (NotFound (shortCode d)) = 404"
proof (cases "isActive d")
  case True
  then have "findByShortCode (shortCode d) s = Some d"
    using assms(1,2) by (simp add: findByShortCode_active)
  then show ?thesis using True assms(3) by (simp add: redirectToUrl_def isExpired_def)
next
  case False
  then have "findByShortCode (shortCode d) s = None"
    using assms(1,2) by (simp add: findByShortCode_inactive)
  then show ?thesis using False by (simp add: redirectToUrl_def)
qed

text \<open>The theorem at \<open>doc_a\<close>, one millisecond after its expiry.\<close>

theorem redirect_expired_witness:
  "distinct (map shortCode [doc_a]) \<and> doc_a \<in> set [doc_a] \<and> 1800001 > expiry doc_a \<and>
   redirectToUrl 1800001 ''abcde'' [doc_a] = (Expired ''abcde'' 1800000, [doc_a])"
proof -
  have a: "distinct (map shortCode [doc_a])" by simp
  have b: "doc_a \<in> set [doc_a]" by simp
  have c: "1800001 > expiry doc_a" by (simp add: doc_a_def)
  have e: "shortCode doc_a = ''abcde'' \<and> isActive doc_a \<and> expiry doc_a = 1800000"
    by (simp add: doc_a_def)
  show ?thesis using redirect_expired [OF a b c] a b c e by simp
qed

text \<open>
  The claim as stated fails: \<open>doc_off\<close> is stored and expired, and the redirection on
  its code answers not found, not expired.
\<close>

theorem redirect_expired_inactive_counterexample:
  "doc_off \<in> set [doc_off] \<and> isExpired 1800001 doc_off \<and>
   redirectToUrl 1800001 (shortCode doc_off) [doc_off] = (NotFound ''abcde'', [doc_off])"
  by code_simp

section \<open>Activation\<close>

lemma updateUrlStatus_not_boolean:
  "v \<notin> range JBool \<Longrightarrow> updateUrlStatus now code v s = (NotBoolean, s)"
  by (cases v) (auto simp: updateUrlStatus_def)

lemma updateUrlStatus_active:
  assumes "distinct (map shortCode s)" and "d \<in> set s" and "isActive d"
  shows "fst (updateUrlStatus now (shortCode d) (JBool b) s)
           = StatusUpdated (shortCode d) (originalUrl d) b"
proof -
  have "findOne (empty_query\<lparr>q_shortCode := Some (shortCode d)\<rparr>) s = Some d"
    unfolding findOne_def matches_shortCode_hook_fun
    by (rule find_unique [where f = shortCode]) (use assms in simp_all)
  then show ?thesis
    by (simp add: updateUrlStatus_def findOneAndUpdate_def set_isActive_def)
qed

text \<open>
  Claim C2 says that \<open>setActive\<close> updates every stored document, whatever its
  \<open>isActive\<close>, and that not found means that no document holds the code. At the
  collection that holds the inactive \<open>doc_off\<close>, the activation of its code answers
  not found and changes nothing: the pre-find hook hides the inactive document from
  \<open>findOneAndUpdate\<close>.
\<close>

theorem reactivate_not_found:
  "doc_off \<in> set [doc_off] \<and> shortCode doc_off = ''abcde'' \<and>
   updateUrlStatus 5 ''abcde'' (JBool True) [doc_off] = (NotFound ''abcde'', [doc_off])"
  by code_simp

section \<open>Generated codes and inactive documents\<close>

text \<open>
  Claim C4 says that a candidate collides with any stored code and that generation
  never returns a stored code. At the collection that holds the inactive \<open>doc_off\<close>,
  the loop accepts the candidate \<open>abcde\<close>, the code of \<open>doc_off\<close>, at its first
  attempt, because \<open>findByShortCode\<close> asks for \<open>isActive: true\<close>; the insert then
  fails on the unique index and the request is answered with status 409.
\<close>

theorem generated_code_of_inactive:
  "doc_off \<in> set [doc_off] \<and> shortCode doc_off = ''abcde'' \<and>
   generate_loop (\<lambda>i. ''abcde'') [doc_off] 0 = (1, Some ''abcde'') \<and>
   createShortUrl parser_ok (\<lambda>i. ''abcde'') 5
      \<lparr>req_url = Some ''http://b.io/y'', req_validity = None, req_shortcode = None\<rparr> [doc_off]
     = (DuplicateCode, [doc_off])"
  by code_simp

section \<open>Deduplication\<close>

text \<open>
  Claim C7 says that a second request for the same URL, made while the document of the
  first request is active and unexpired, returns the first request's code and creates
  nothing. Here \<open>doc_a\<close> has expired. The first request creates \<open>doc_b\<close>; one
  millisecond later \<open>doc_b\<close> is valid for redirection, and the second request for the
  same URL creates \<open>doc_c\<close> under a new code: \<open>findOne({originalUrl})\<close> returns the
  first document with that URL, the expired \<open>doc_a\<close>, and the test on it fails.
\<close>

theorem dedup_shadowed:
  "createShortUrl parser_ok (\<lambda>i. ''bbbbb'') 2000000 body_a [doc_a]
     = (Created ''bbbbb'' ''http://a.io/x'' 3800000 30, [doc_a, doc_b]) \<and>
   isValidForRedirect 2000001 doc_b \<and>
   createShortUrl parser_ok (\<lambda>i. ''ccccc'') 2000001 body_a [doc_a, doc_b]
     = (Created ''ccccc'' ''http://a.io/x'' 3800001 30, [doc_a, doc_b, doc_c])"
  by code_simp

section \<open>The listing\<close>

lemma set_insort_by: "set (insort_by le x xs) = insert x (set xs)"
  by (induction xs) auto

lemma set_sort_by: "set (sort_by le xs) = set xs"
  unfolding sort_by_def by (induction xs) (simp_all add: set_insort_by)

lemma set_sort_docs: "set (sort_docs sortBy sortOrder xs) = set xs"
  by (simp add: sort_docs_def set_sort_by)

lemma set_limit_docs: "set (limit_docs n xs) \<subseteq> set xs"
  by (auto simp: limit_docs_def dest: in_set_takeD)

lemma find_docs_active: "d \<in> set (find_docs q s) \<Longrightarrow> q_isActive q = None \<Longrightarrow> isActive d"
  by (auto simp: find_docs_def pre_find_def matches_def)

lemma getAllUrls_urls:
  assumes "getAllUrls now page limit sortBy sortOrder includeExpired s = UrlList p"
  shows "urls p = limit_docs limit (drop (nat ((page - 1) * limit))
           (sort_docs sortBy sortOrder
              (find_docs (if \<not> includeExpired then empty_query\<lparr>q_expiry_gt := Some now\<rparr> else empty_query) s)))"
proof (cases "(page - 1) * limit < 0")
  case True
  then show ?thesis using assms by (simp add: getAllUrls_def)
next
  case False
  then have "p = \<lparr>urls = limit_docs limit (drop (nat ((page - 1) * limit))
           (sort_docs sortBy sortOrder
              (find_docs (if \<not> includeExpired then empty_query\<lparr>q_expiry_gt := Some now\<rparr> else empty_query) s))),
         currentPage = page,
         totalPages = ceil_div (countDocuments (if \<not> includeExpired then empty_query\<lparr>q_expiry_gt := Some now\<rparr> else empty_query) s) limit,
         totalItems = countDocuments (if \<not> includeExpired then empty_query\<lparr>q_expiry_gt := Some now\<rparr> else empty_query) s,
         itemsPerPage = limit,
         hasNextPage = less_jsnum page (ceil_div (countDocuments (if \<not> includeExpired then empty_query\<lparr>q_expiry_gt := Some now\<rparr> else empty_query) s) limit),
         hasPrevPage = (page > 1)\<rparr>"
    using assms by (simp add: getAllUrls_def Let_def)
  then show ?thesis by simp
qed

text \<open>
  The page of the listing holds stored, active documents only, for all arguments.
\<close>

lemma getAllUrls_urls_active:
  assumes "getAllUrls now page limit sortBy sortOrder includeExpired s = UrlList p" and "d \<in> set (urls p)"
  shows "isActive d \<and> d \<in> set s"
proof -
  let ?q = "if \<not> includeExpired then empty_query\<lparr>q_expiry_gt := Some now\<rparr> else empty_query"
  have q: "q_isActive ?q = None" by (simp add: empty_query_def)
  define xs where "xs = sort_docs sortBy sortOrder (find_docs ?q s)"
  have "urls p = limit_docs limit (drop (nat ((page - 1) * limit)) xs)"
    unfolding xs_def using assms(1) by (rule getAllUrls_urls)
  then have "d \<in> set (limit_docs limit (drop (nat ((page - 1) * limit)) xs))"
    using assms(2) by simp
  then have "d \<in> set (drop (nat ((page - 1) * limit)) xs)"
    by (rule subsetD [OF set_limit_docs])
  then have "d \<in> set xs" by (rule in_set_dropD)
  then have m: "d \<in> set (find_docs ?q s)"
    unfolding xs_def by (simp only: set_sort_docs)
  have "isActive d" using m q by (rule find_docs_active)
  moreover have "d \<in> set s" using m by (simp add: find_docs_def)
  ultimately show ?thesis by simp
qed

text \<open>
  Claim C10 says that an inactive document is invisible to the listing and to its total
  count. At the collection that holds the inactive, unexpired \<open>doc_off\<close>, the page is
  empty and the total is 1, with one page announced: the pre-find hook runs for
  \<open>find\<close> and not for \<open>countDocuments\<close>.
\<close>

theorem list_total_counts_inactive:
  "getAllUrls 5 1 10 ''createdAt'' ''desc'' False [doc_off]
     = UrlList \<lparr>urls = [], currentPage = 1, totalPages = Finite 1, totalItems = 1,
                 itemsPerPage = 10, hasNextPage = False, hasPrevPage = False\<rparr>"
  by code_simp

section \<open>Facts about createShortUrl\<close>

lemma validate_url:
  "validateShortenRequest isValidUrl body = [] \<Longrightarrow>
     \<exists>u. req_url body = Some u \<and> u \<noteq> [] \<and> isValidUrl (sanitizeUrl u)"
  by (auto simp: validateShortenRequest_def split: option.splits if_splits)

lemma validate_validity:
  "validateShortenRequest isValidUrl body = [] \<Longrightarrow> req_validity body = Some v \<Longrightarrow> 1 \<le> v \<and> v \<le> 525600"
  by (auto simp: validateShortenRequest_def split: option.splits if_splits)

lemma validate_code:
  "validateShortenRequest isValidUrl body = [] \<Longrightarrow> req_shortcode body = Some c \<Longrightarrow> isValidShortCode c"
  by (auto simp: validateShortenRequest_def split: option.splits if_splits)

lemma validityInMinutes_range:
  "validateShortenRequest isValidUrl body = [] \<Longrightarrow>
     1 \<le> validityInMinutes (req_validity body) \<and> validityInMinutes (req_validity body) \<le> 525600"
  by (cases "req_validity body") (auto simp: validityInMinutes_def dest: validate_validity)

lemma truthy_valid:
  "validateShortenRequest isValidUrl body = [] \<Longrightarrow> truthy (req_shortcode body) = req_shortcode body"
  by (cases "req_shortcode body") (auto simp: truthy_def isValidShortCode_def dest: validate_code)

lemma createShortUrl_valid:
  assumes "validateShortenRequest isValidUrl body = []" and "req_url body = Some raw"
  shows "createShortUrl isValidUrl gen now body s =
     (case existingUrl now (sanitizeUrl raw) s of
        Some e \<Rightarrow> (AlreadyShortened (shortCode e) (expiry e), s)
      | None \<Rightarrow>
          (case choose_code gen now (req_shortcode body) s of
             Inl r \<Rightarrow> (r, s)
           | Inr code \<Rightarrow>
               (case save_new (new_Url now (sanitizeUrl raw) code (validityInMinutes (req_validity body))
                                 (calculateExpiryDate now (validityInMinutes (req_validity body)))) s of
                  Inl DuplicateKey \<Rightarrow> (DuplicateCode, s)
                | Inl ValidationError \<Rightarrow> (ModelValidationError, s)
                | Inr s' \<Rightarrow> (Created code (sanitizeUrl raw)
                               (calculateExpiryDate now (validityInMinutes (req_validity body)))
                               (validityInMinutes (req_validity body)), s'))))"
  unfolding createShortUrl_def Let_def truthy_valid [OF assms(1)] assms option.case
  by simp

lemma createShortUrl_store:
  assumes "createShortUrl isValidUrl gen now body s = (r, s')" and "s' \<noteq> s"
  shows "\<exists>raw code v e. req_url body = Some raw \<and> raw \<noteq> [] \<and> r = Created code (sanitizeUrl raw) e v \<and>
            s' = s @ [new_Url now (sanitizeUrl raw) code v e]"
proof -
  have v: "validateShortenRequest isValidUrl body = []"
    using assms by (auto simp: createShortUrl_def Let_def split: if_splits)
  then obtain raw where raw: "req_url body = Some raw" "raw \<noteq> []"
    using validate_url by blast
  note eq = createShortUrl_valid [OF v raw(1), of gen now s]
  show ?thesis
  proof (cases "existingUrl now (sanitizeUrl raw) s")
    case (Some e)
    then show ?thesis using assms eq by simp
  next
    case None
    show ?thesis
    proof (cases "choose_code gen now (req_shortcode body) s")
      case (Inl a)
      then show ?thesis using assms eq None by simp
    next
      case (Inr code)
      let ?d = "new_Url now (sanitizeUrl raw) code (validityInMinutes (req_validity body))
                                 (calculateExpiryDate now (validityInMinutes (req_validity body)))"
      show ?thesis
      proof (cases "save_new ?d s")
        case (Inl e)
        then show ?thesis using assms eq None Inr by (cases e) simp_all
      next
        case sv: (Inr s2)
        then have "s2 = s @ [?d]" by (auto simp: save_new_def split: if_splits)
        then show ?thesis using assms eq None Inr sv raw by auto
      qed
    qed
  qed
qed


lemma url_validator_nonempty: "url_validator u \<Longrightarrow> u \<noteq> []"
  by (auto simp: url_validator_def)






section \<open>Sanitization\<close>





lemma of_char_lt: "(of_char c :: nat) < 256"
  by (cases c) (simp add: of_char_def)


















section \<open>The generation loop\<close>

lemma generate_loop_fst:
  "fst (generate_loop gen s a) \<le> max maxAttempts (a + 1)"
proof (induction gen s a rule: generate_loop.induct)
  case (1 gen s attempts)
  show ?case
  proof (cases "attempts + 1 \<ge> maxAttempts")
    case True
    then show ?thesis by (subst generate_loop.simps) simp
  next
    case False
    show ?thesis
    proof (cases "findByShortCode (gen attempts) s \<noteq> None")
      case True
      have "fst (generate_loop gen s (attempts + 1)) \<le> max maxAttempts (attempts + 1 + 1)"
        using False True by (rule "1.IH")
      then show ?thesis using False True by (subst generate_loop.simps) simp
    next
      case f: False
      then show ?thesis using False by (subst generate_loop.simps) simp
    qed
  qed
qed

lemma generate_loop_None:
  "(snd (generate_loop gen s a) = None)
     = (\<forall>i. a \<le> i \<and> i + 1 < maxAttempts \<longrightarrow> findByShortCode (gen i) s \<noteq> None)"
proof (induction gen s a rule: generate_loop.induct)
  case (1 gen s attempts)
  show ?case
  proof (cases "attempts + 1 \<ge> maxAttempts")
    case True
    then have "snd (generate_loop gen s attempts) = None"
      by (subst generate_loop.simps) simp
    then show ?thesis using True by auto
  next
    case False
    show ?thesis
    proof (cases "findByShortCode (gen attempts) s \<noteq> None")
      case True
      have ih: "(snd (generate_loop gen s (attempts + 1)) = None)
           = (\<forall>i. attempts + 1 \<le> i \<and> i + 1 < maxAttempts \<longrightarrow> findByShortCode (gen i) s \<noteq> None)"
        using False True by (rule "1.IH")
      have eq: "generate_loop gen s attempts = generate_loop gen s (attempts + 1)"
        using False True by (subst generate_loop.simps) simp
      have "(\<forall>i. attempts \<le> i \<and> i + 1 < maxAttempts \<longrightarrow> findByShortCode (gen i) s \<noteq> None)
          = (\<forall>i. attempts + 1 \<le> i \<and> i + 1 < maxAttempts \<longrightarrow> findByShortCode (gen i) s \<noteq> None)"
      proof
        assume "\<forall>i. attempts \<le> i \<and> i + 1 < maxAttempts \<longrightarrow> findByShortCode (gen i) s \<noteq> None"
        then show "\<forall>i. attempts + 1 \<le> i \<and> i + 1 < maxAttempts \<longrightarrow> findByShortCode (gen i) s \<noteq> None"
          by simp
      next
        assume h: "\<forall>i. attempts + 1 \<le> i \<and> i + 1 < maxAttempts \<longrightarrow> findByShortCode (gen i) s \<noteq> None"
        show "\<forall>i. attempts \<le> i \<and> i + 1 < maxAttempts \<longrightarrow> findByShortCode (gen i) s \<noteq> None"
        proof (intro allI impI)
          fix i assume i: "attempts \<le> i \<and> i + 1 < maxAttempts"
          show "findByShortCode (gen i) s \<noteq> None"
          proof (cases "i = attempts")
            case True
            then show ?thesis using \<open>findByShortCode (gen attempts) s \<noteq> None\<close> by simp
          next
            case False
            then have "attempts + 1 \<le> i" using i by simp
            then show ?thesis using h i by blast
          qed
        qed
      qed
      then show ?thesis using ih eq by simp
    next
      case f: False
      then have "snd (generate_loop gen s attempts) = Some (gen attempts)"
        using False by (subst generate_loop.simps) simp
      moreover have "attempts \<le> attempts \<and> attempts + 1 < maxAttempts" using False by simp
      ultimately show ?thesis using f by auto
    qed
  qed
qed

text \<open>
  Claim C6. The loop ends with \<open>attempts\<close> at 10 at most, so \<open>generateShortCode\<close> is
  called at most 10 times. It throws exactly when each of the first nine candidates is
  the code of an active document (the tenth call reaches the bound before any lookup).
  When it throws in a request that passed validation and deduplication and has no
  custom code, the answer is the generation error with status 500 and the collection
  is unchanged; and whenever \<open>createShortUrl\<close> answers with a status 500 error, the
  collection is unchanged.
\<close>

theorem generation_bounded:
  "fst (generate_loop gen s 0) \<le> 10 \<and>
   ((snd (generate_loop gen s 0) = None) = (\<forall>i<9. findByShortCode (gen i) s \<noteq> None)) \<and>
   (validateShortenRequest isValidUrl body = [] \<and> req_url body = Some raw \<and>
    req_shortcode body = None \<and> existingUrl now (sanitizeUrl raw) s = None \<and>
    snd (generate_loop gen s 0) = None \<longrightarrow>
      createShortUrl isValidUrl gen now body s
        = (InternalError ''Unable to generate unique short code. Please try again.'', s) \<and>
      status (InternalError ''Unable to generate unique short code. Please try again.'') = 500) \<and>
   (createShortUrl isValidUrl gen now body s = (InternalError m, s') \<longrightarrow> s' = s)"
proof -
  have a: "fst (generate_loop gen s 0) \<le> 10"
    using generate_loop_fst [of gen s 0] by (simp add: maxAttempts_def)
  have b: "(snd (generate_loop gen s 0) = None) = (\<forall>i<9. findByShortCode (gen i) s \<noteq> None)"
    unfolding generate_loop_None by (auto simp: maxAttempts_def)
  have c: "validateShortenRequest isValidUrl body = [] \<and> req_url body = Some raw \<and>
    req_shortcode body = None \<and> existingUrl now (sanitizeUrl raw) s = None \<and>
    snd (generate_loop gen s 0) = None \<longrightarrow>
      createShortUrl isValidUrl gen now body s
        = (InternalError ''Unable to generate unique short code. Please try again.'', s) \<and>
      status (InternalError ''Unable to generate unique short code. Please try again.'') = 500"
  proof
    assume h: "validateShortenRequest isValidUrl body = [] \<and> req_url body = Some raw \<and>
      req_shortcode body = None \<and> existingUrl now (sanitizeUrl raw) s = None \<and>
      snd (generate_loop gen s 0) = None"
    then have v: "validateShortenRequest isValidUrl body = []" and r: "req_url body = Some raw" by simp_all
    have "choose_code gen now (req_shortcode body) s
            = Inl (InternalError ''Unable to generate unique short code. Please try again.'')"
      using h by (simp add: choose_code_def)
    then show "createShortUrl isValidUrl gen now body s
        = (InternalError ''Unable to generate unique short code. Please try again.'', s) \<and>
      status (InternalError ''Unable to generate unique short code. Please try again.'') = 500"
      using h by (simp add: createShortUrl_valid [OF v r])
  qed
  have d: "createShortUrl isValidUrl gen now body s = (InternalError m, s') \<longrightarrow> s' = s"
  proof
    assume h: "createShortUrl isValidUrl gen now body s = (InternalError m, s')"
    show "s' = s"
    proof (rule ccontr)
      assume "s' \<noteq> s"
      then obtain raw code v e where "InternalError m = Created code (sanitizeUrl raw) e v"
        using createShortUrl_store [OF h] by blast
      then show False by simp
    qed
  qed
  show ?thesis by (rule conjI [OF a conjI [OF b conjI [OF c d]]])
qed

text \<open>
  The theorem at the collection that holds \<open>doc_a\<close>, with a generator that returns the
  code of \<open>doc_a\<close> at every call.
\<close>

theorem generation_bounded_witness:
  "validateShortenRequest parser_ok body_b = [] \<and> req_url body_b = Some ''http://b.io/y'' \<and>
   req_shortcode body_b = None \<and> existingUrl 5 (sanitizeUrl ''http://b.io/y'') [doc_a] = None \<and>
   generate_loop (\<lambda>i. ''abcde'') [doc_a] 0 = (10, None) \<and>
   createShortUrl parser_ok (\<lambda>i. ''abcde'') 5 body_b [doc_a]
     = (InternalError ''Unable to generate unique short code. Please try again.'', [doc_a])"
proof -
  have a: "validateShortenRequest parser_ok body_b = []" by code_simp
  have b: "req_url body_b = Some ''http://b.io/y'' \<and> req_shortcode body_b = None"
    by (simp add: body_b_def)
  have c: "existingUrl 5 (sanitizeUrl ''http://b.io/y'') [doc_a] = None" by code_simp
  have d: "generate_loop (\<lambda>i. ''abcde'') [doc_a] 0 = (10, None)" by code_simp
  have "createShortUrl parser_ok (\<lambda>i. ''abcde'') 5 body_b [doc_a]
     = (InternalError ''Unable to generate unique short code. Please try again.'', [doc_a])"
    using generation_bounded [of "\<lambda>i. ''abcde''" "[doc_a]" parser_ok body_b "''http://b.io/y''" 5] a b c d
    by simp
  then show ?thesis using a b c d by simp
qed


section \<open>Custom codes\<close>

lemma code_char_not_space: "code_char c \<Longrightarrow> \<not> js_space c"
  by (auto simp: code_char_def js_space_def Let_def)

lemma trim_id:
  assumes "s \<noteq> []" and "\<not> js_space (hd s)" and "\<not> js_space (last s)"
  shows "trim s = s"
proof -
  have a: "dropWhile js_space s = s" using assms(1,2) by (cases s) simp_all
  have "rev s \<noteq> []" and "\<not> js_space (hd (rev s))" using assms(1,3) by (simp_all add: hd_rev)
  then have "dropWhile js_space (rev s) = rev s" by (cases "rev s") simp_all
  then show ?thesis by (simp add: trim_def a)
qed

lemma trim_valid_code:
  assumes "isValidShortCode c"
  shows "trim c = c"
proof -
  have ne: "c \<noteq> []" and all: "\<forall>x\<in>set c. code_char x"
    using assms by (simp_all add: isValidShortCode_def list_all_iff)
  have "hd c \<in> set c" and "last c \<in> set c" using ne by simp_all
  then have "\<not> js_space (hd c)" and "\<not> js_space (last c)"
    using all code_char_not_space by blast+
  then show ?thesis using ne by (simp add: trim_id)
qed

lemma validate_new_doc:
  assumes "validateShortenRequest isValidUrl body = []" and "req_shortcode body = Some c"
  shows "validate_doc (new_Url now u c (validityInMinutes (req_validity body)) e)
           = (url_validator u \<and> length u \<le> 2048)"
proof -
  have c: "isValidShortCode c" using assms by (rule validate_code)
  then have t: "trim c = c" by (rule trim_valid_code)
  have r: "1 \<le> validityInMinutes (req_validity body) \<and> validityInMinutes (req_validity body) \<le> 525600"
    using assms(1) by (rule validityInMinutes_range)
  show ?thesis
    using c r url_validator_nonempty [of u]
    by (auto simp: validate_doc_def new_Url_def t isValidShortCode_def)
qed

text \<open>
  Claim C5, as the code has it. Take a collection with distinct short codes and a
  request that passes validation, carries the custom code \<open>c\<close> and is not answered by
  deduplication. If a stored document holds \<open>c\<close>, no document is created: the answer
  is the pre-check's error (status 400) when the holder is active and unexpired;
  otherwise the pre-check passes and \<open>save()\<close> fails, on the unique index with status
  409 when the new document passes the schema's validators, and on these validators
  with status 400 when it does not. If no stored document holds \<open>c\<close>, the new document
  is appended under \<open>c\<close> when it passes the validators, and refused with status 400
  when it does not. Given the validated request, the validators come down to the test
  of \<open>originalUrl\<close> (the case-sensitive pattern and the length).
\<close>

theorem custom_code_conflict:
  assumes "distinct (map shortCode s)"
    and "validateShortenRequest isValidUrl body = []"
    and "req_url body = Some raw" and "req_shortcode body = Some c"
    and "existingUrl now (sanitizeUrl raw) s = None"
  shows
   "(\<forall>d\<in>set s. shortCode d = c \<longrightarrow>
        createShortUrl isValidUrl gen now body s =
          (if isValidForRedirect now d then CustomCodeActive
           else if url_validator (sanitizeUrl raw) \<and> length (sanitizeUrl raw) \<le> 2048 then DuplicateCode
           else ModelValidationError, s)) \<and>
    (c \<notin> set (map shortCode s) \<longrightarrow>
        createShortUrl isValidUrl gen now body s =
          (if url_validator (sanitizeUrl raw) \<and> length (sanitizeUrl raw) \<le> 2048
           then (Created c (sanitizeUrl raw)
                   (calculateExpiryDate now (validityInMinutes (req_validity body)))
                   (validityInMinutes (req_validity body)),
                 s @ [new_Url now (sanitizeUrl raw) c (validityInMinutes (req_validity body))
                        (calculateExpiryDate now (validityInMinutes (req_validity body)))])
           else (ModelValidationError, s))) \<and>
    status CustomCodeActive = 400 \<and> status DuplicateCode = 409"
proof -
  let ?u = "sanitizeUrl raw"
  let ?V = "validityInMinutes (req_validity body)"
  let ?E = "calculateExpiryDate now ?V"
  let ?doc = "new_Url now ?u c ?V ?E"
  let ?ok = "url_validator ?u \<and> length ?u \<le> 2048"
  note eq = createShortUrl_valid [OF assms(2,3), of gen now s]
  have vd: "validate_doc ?doc = ?ok" using assms(2,4) by (rule validate_new_doc)
  have sc: "shortCode ?doc = c"
    using trim_valid_code [OF validate_code [OF assms(2,4)]] by (simp add: new_Url_def)
  have held: "createShortUrl isValidUrl gen now body s =
          (if isValidForRedirect now d then CustomCodeActive
           else if ?ok then DuplicateCode else ModelValidationError, s)"
    if d: "d \<in> set s" "shortCode d = c" for d
  proof -
    have dup: "save_new ?doc s = (if ?ok then Inl DuplicateKey else Inl ValidationError)"
      using d sc vd by (auto simp: save_new_def)
    show ?thesis
    proof (cases "isActive d")
      case True
      then have f: "findByShortCode c s = Some d"
        using findByShortCode_active [OF assms(1) d(1)] d(2) by simp
      show ?thesis
        using f dup assms(4,5) by (simp add: eq choose_code_def)
    next
      case False
      then have f: "findByShortCode c s = None"
        using findByShortCode_inactive [OF assms(1) d(1)] d(2) by simp
      have "\<not> isValidForRedirect now d" using False by (simp add: isValidForRedirect_def)
      then show ?thesis
        using f dup assms(4,5) by (simp add: eq choose_code_def)
    qed
  qed
  have free: "createShortUrl isValidUrl gen now body s =
          (if ?ok then (Created c ?u ?E ?V, s @ [?doc]) else (ModelValidationError, s))"
    if n: "c \<notin> set (map shortCode s)"
  proof -
    have f: "findByShortCode c s = None"
      using n by (auto simp: findByShortCode_None_iff)
    have sv: "save_new ?doc s = (if ?ok then Inr (s @ [?doc]) else Inl ValidationError)"
      using n sc vd by (auto simp: save_new_def)
    show ?thesis using f sv assms(4,5) by (simp add: eq choose_code_def)
  qed
  show ?thesis using held free by simp
qed

text \<open>
  The theorem at the collection that holds the valid \<open>doc_a\<close>, whose code is refused by
  the pre-check; at the empty collection, where the document is created; and at the
  collection that holds the inactive \<open>doc_off\<close>, where the insert is refused on the
  unique index for a URL in lower case and on the validator for \<open>HTTP://b.io/y\<close>.
\<close>

theorem custom_code_conflict_witness:
  "distinct (map shortCode [doc_a]) \<and> validateShortenRequest parser_ok body_custom = [] \<and>
   req_url body_custom = Some ''http://b.io/y'' \<and> req_shortcode body_custom = Some ''abcde'' \<and>
   existingUrl 5 (sanitizeUrl ''http://b.io/y'') [doc_a] = None \<and>
   doc_a \<in> set [doc_a] \<and> shortCode doc_a = ''abcde'' \<and> isValidForRedirect 5 doc_a \<and>
   createShortUrl parser_ok (\<lambda>i. ''zzzzz'') 5 body_custom [doc_a] = (CustomCodeActive, [doc_a]) \<and>
   distinct (map shortCode ([] :: url_doc list)) \<and>
   existingUrl 5 (sanitizeUrl ''http://b.io/y'') [] = None \<and>
   ''abcde'' \<notin> set (map shortCode ([] :: url_doc list)) \<and>
   url_validator (sanitizeUrl ''http://b.io/y'') \<and> length (sanitizeUrl ''http://b.io/y'') \<le> 2048 \<and>
   createShortUrl parser_ok (\<lambda>i. ''zzzzz'') 5 body_custom []
     = (Created ''abcde'' ''http://b.io/y'' 1800005 30,
        [new_Url 5 ''http://b.io/y'' ''abcde'' 30 1800005]) \<and>
   distinct (map shortCode [doc_off]) \<and>
   existingUrl 5 (sanitizeUrl ''http://b.io/y'') [doc_off] = None \<and>
   doc_off \<in> set [doc_off] \<and> shortCode doc_off = ''abcde'' \<and> \<not> isValidForRedirect 5 doc_off \<and>
   createShortUrl parser_ok (\<lambda>i. ''zzzzz'') 5 body_custom [doc_off] = (DuplicateCode, [doc_off]) \<and>
   validateShortenRequest parser_schemes body_custom_upper = [] \<and>
   req_url body_custom_upper = Some ''HTTP://b.io/y'' \<and>
   req_shortcode body_custom_upper = Some ''abcde'' \<and>
   existingUrl 5 (sanitizeUrl ''HTTP://b.io/y'') [doc_off] = None \<and>
   \<not> url_validator (sanitizeUrl ''HTTP://b.io/y'') \<and>
   createShortUrl parser_schemes (\<lambda>i. ''zzzzz'') 5 body_custom_upper [doc_off]
     = (ModelValidationError, [doc_off])"
proof -
  have a: "distinct (map shortCode [doc_a])" by simp
  have b: "validateShortenRequest parser_ok body_custom = []" by code_simp
  have c: "req_url body_custom = Some ''http://b.io/y''" by (simp add: body_custom_def)
  have d: "req_shortcode body_custom = Some ''abcde''" by (simp add: body_custom_def)
  have e: "existingUrl 5 (sanitizeUrl ''http://b.io/y'') [doc_a] = None" by code_simp
  have f: "doc_a \<in> set [doc_a] \<and> shortCode doc_a = ''abcde'' \<and> isValidForRedirect 5 doc_a"
    by (simp add: doc_a_def isValidForRedirect_def isExpired_def)
  have g: "createShortUrl parser_ok (\<lambda>i. ''zzzzz'') 5 body_custom [doc_a] = (CustomCodeActive, [doc_a])"
    using custom_code_conflict [OF a b c d e, of "\<lambda>i. ''zzzzz''"] f by simp
  have a': "distinct (map shortCode ([] :: url_doc list))" by simp
  have e': "existingUrl 5 (sanitizeUrl ''http://b.io/y'') [] = None" by code_simp
  have h: "sanitizeUrl ''http://b.io/y'' = ''http://b.io/y''" by code_simp
  have i: "url_validator ''http://b.io/y'' \<and> length ''http://b.io/y'' \<le> (2048 :: nat)" by code_simp
  have j: "validityInMinutes (req_validity body_custom) = 30"
    by (simp add: body_custom_def validityInMinutes_def)
  have k: "calculateExpiryDate 5 30 = 1800005" by (simp add: calculateExpiryDate_def)
  have l: "createShortUrl parser_ok (\<lambda>i. ''zzzzz'') 5 body_custom []
     = (Created ''abcde'' ''http://b.io/y'' 1800005 30,
        [new_Url 5 ''http://b.io/y'' ''abcde'' 30 1800005])"
    using custom_code_conflict [OF a' b c d e', of "\<lambda>i. ''zzzzz''"] h i j k by simp
  have a2: "distinct (map shortCode [doc_off])" by simp
  have e2: "existingUrl 5 (sanitizeUrl ''http://b.io/y'') [doc_off] = None" by code_simp
  have f2: "doc_off \<in> set [doc_off] \<and> shortCode doc_off = ''abcde'' \<and> \<not> isValidForRedirect 5 doc_off"
    by (simp add: doc_off_def doc_a_def isValidForRedirect_def)
  have m: "createShortUrl parser_ok (\<lambda>i. ''zzzzz'') 5 body_custom [doc_off] = (DuplicateCode, [doc_off])"
    using custom_code_conflict [OF a2 b c d e2, of "\<lambda>i. ''zzzzz''"] f2 h i by simp
  have b3: "validateShortenRequest parser_schemes body_custom_upper = []" by code_simp
  have c3: "req_url body_custom_upper = Some ''HTTP://b.io/y''" by (simp add: body_custom_upper_def)
  have d3: "req_shortcode body_custom_upper = Some ''abcde''" by (simp add: body_custom_upper_def)
  have e3: "existingUrl 5 (sanitizeUrl ''HTTP://b.io/y'') [doc_off] = None" by code_simp
  have n: "\<not> url_validator (sanitizeUrl ''HTTP://b.io/y'')" by code_simp
  have o: "createShortUrl parser_schemes (\<lambda>i. ''zzzzz'') 5 body_custom_upper [doc_off]
     = (ModelValidationError, [doc_off])"
    using custom_code_conflict [OF a2 b3 c3 d3 e3, of "\<lambda>i. ''zzzzz''"] f2 n by simp
  show ?thesis
    using a b c d e f g a' e' h i l a2 e2 f2 m b3 c3 d3 e3 n o by simp
qed

text \<open>
  The claim as stated fails: the expired \<open>doc_a\<close> and the inactive \<open>doc_off\<close> hold
  the custom code, are not valid for redirection, and the request is refused with the
  duplicate error of status 409 all the same; no record reusing the code is created.
\<close>

theorem custom_code_expired_counterexample:
  "doc_a \<in> set [doc_a] \<and> shortCode doc_a = ''abcde'' \<and> isActive doc_a \<and>
   \<not> isValidForRedirect 2000000 doc_a \<and>
   createShortUrl parser_ok (\<lambda>i. ''zzzzz'') 2000000 body_custom [doc_a] = (DuplicateCode, [doc_a]) \<and>
   doc_off \<in> set [doc_off] \<and> shortCode doc_off = ''abcde'' \<and>
   \<not> isValidForRedirect 5 doc_off \<and>
   createShortUrl parser_ok (\<lambda>i. ''zzzzz'') 5 body_custom [doc_off] = (DuplicateCode, [doc_off]) \<and>
   status DuplicateCode = 409"
  by code_simp


section \<open>Deduplication in the absence of an older document\<close>

lemma find_append_last:
  assumes "\<forall>x\<in>set s. \<not> P x" and "P d"
  shows "List.find P (s @ [d]) = Some d"
  using assms by (induction s) simp_all

lemma createShortUrl_Created:
  assumes "createShortUrl isValidUrl gen now body s = (Created code u e v, s1)"
  shows "validateShortenRequest isValidUrl body = [] \<and>
         (\<exists>raw. req_url body = Some raw \<and> u = sanitizeUrl raw) \<and>
         s1 = s @ [new_Url now u code v e]"
proof -
  have v: "validateShortenRequest isValidUrl body = []"
    using assms by (auto simp: createShortUrl_def Let_def split: if_splits)
  then obtain raw where raw: "req_url body = Some raw"
    using validate_url by blast
  note eq = createShortUrl_valid [OF v raw, of gen now s]
  let ?V = "validityInMinutes (req_validity body)"
  let ?E = "calculateExpiryDate now ?V"
  have "u = sanitizeUrl raw \<and> s1 = s @ [new_Url now u code v e]"
  proof (cases "existingUrl now (sanitizeUrl raw) s")
    case (Some x)
    then show ?thesis using assms eq by simp
  next
    case None
    show ?thesis
    proof (cases "choose_code gen now (req_shortcode body) s")
      case (Inl a)
      then have "a = Created code u e v" and "s1 = s" using assms eq None by simp_all
      then show ?thesis using Inl
        by (auto simp: choose_code_def split: option.splits if_splits)
    next
      case (Inr c)
      show ?thesis
      proof (cases "save_new (new_Url now (sanitizeUrl raw) c ?V ?E) s")
        case (Inl er)
        then show ?thesis using assms eq None Inr by (cases er) simp_all
      next
        case sv: (Inr s2)
        then have "s2 = s @ [new_Url now (sanitizeUrl raw) c ?V ?E]"
          by (auto simp: save_new_def split: if_splits)
        then show ?thesis using assms eq None Inr sv by auto
      qed
    qed
  qed
  then show ?thesis using v raw by blast
qed

text \<open>
  When no active document of the collection had the URL before the first request
  created one, a later request for the same body, made no later than the expiry, is
  answered with the stored code and changes nothing. The failure shown in the section
  on deduplication needs an older active document with the same URL.
\<close>

lemma dedup_second_call:
  assumes "createShortUrl isValidUrl gen now body s = (Created code u e v, s1)"
    and "\<forall>d\<in>set s. \<not> (originalUrl d = u \<and> isActive d)"
    and "now2 \<le> e"
  shows "createShortUrl isValidUrl gen2 now2 body s1 = (AlreadyShortened (trim code) e, s1)"
proof -
  obtain raw where v: "validateShortenRequest isValidUrl body = []"
    and raw: "req_url body = Some raw" and u: "u = sanitizeUrl raw"
    and s1: "s1 = s @ [new_Url now u code v e]"
    using createShortUrl_Created [OF assms(1)] by blast
  let ?d = "new_Url now u code v e"
  have "List.find (\<lambda>d. originalUrl d = u \<and> isActive d) (s @ [?d]) = Some ?d"
    by (rule find_append_last) (use assms(2) in \<open>simp_all add: new_Url_def\<close>)
  then have "findOne (empty_query\<lparr>q_originalUrl := Some u\<rparr>) s1 = Some ?d"
    by (simp add: findOne_def matches_originalUrl_hook_fun s1)
  moreover have "isValidForRedirect now2 ?d"
    using assms(3) by (simp add: isValidForRedirect_def isExpired_def new_Url_def)
  ultimately have "existingUrl now2 u s1 = Some ?d"
    by (simp add: existingUrl_def)
  then show ?thesis
    using createShortUrl_valid [OF v raw, of gen2 now2 s1] u by (simp add: new_Url_def)
qed


end
